theory Spec2Isabelle
  imports Complex_Main
begin

section \<open>The SEIR script \<^verbatim>\<open>main_coronaSEIR.py\<close>\<close>

text \<open>
  The script is one module: constants, the rate function \<^verbatim>\<open>model\<close>, the
  integration \<^verbatim>\<open>solve\<close>, and top-level code deriving the observable series.
  Python floats are idealised as \<^typ>\<open>real\<close> (no rounding, no \<^verbatim>\<open>nan\<close> or \<^verbatim>\<open>inf\<close>);
  the int64 array of the deaths loop is \<^typ>\<open>int\<close> with the float-to-int64 store
  written out. The two library calls whose code is not part of the module,
  \<^verbatim>\<open>scipy.integrate.odeint\<close> and \<^verbatim>\<open>shared.delay\<close>, are parameters of the
  functions that call them.
\<close>

subsection \<open>Module constants (lines 22 to 82)\<close>

definition florida_population :: real where
  "florida_population = 21992985"

definition daysTotal :: nat where
  "daysTotal = 365"

definition E0 :: real where
  "E0 = 1"

definition population :: real where
  "population = florida_population"

definition intensive_units :: real where
  "intensive_units = 5604"

text \<open>
  \<^verbatim>\<open>(date_of_lockdown - date_of_first_infection).days\<close>: from 2020-02-01 to
  2020-04-01 there are 29 days of February and 31 of March.
\<close>

definition days_before_lockdown :: real where
  "days_before_lockdown = 29 + 31"

definition r0 :: real where
  "r0 = 3.0"

definition r1 :: real where
  "r1 = 1.0"

definition days_presymptomatic :: real where
  "days_presymptomatic = 2.5"

definition days_to_incubation :: real where
  "days_to_incubation = 5.2"

definition sigma :: real where
  "sigma = 1.0 / (days_to_incubation - days_presymptomatic)"

definition generation_time :: real where
  "generation_time = 4.6"

definition gamma :: real where
  "gamma = 1.0 / (2.0 * (generation_time - 1.0 / sigma))"

definition percent_asymptomatic :: real where
  "percent_asymptomatic = 0.35"

definition percent_cases_detected :: real where
  "percent_cases_detected = (1.0 - percent_asymptomatic) / 20.0"

definition timeInHospital :: real where
  "timeInHospital = 12"

definition timeInfected :: real where
  "timeInfected = 1.0 / gamma"

text \<open>
  Python 3's \<^verbatim>\<open>round\<close> of a float, with one argument: the nearest integer, a tie
  going to the even one.
\<close>

definition py_round :: "real \<Rightarrow> int" where
  "py_round v =
     (let f = \<lfloor>v\<rfloor>; d = v - of_int f
      in if d < 1 / 2 then f
         else if 1 / 2 < d then f + 1
         else if even f then f else f + 1)"

definition presymptomaticLag :: int where
  "presymptomaticLag = py_round days_presymptomatic"

definition communicationLag :: real where
  "communicationLag = 2"

definition testLag :: real where
  "testLag = 3"

definition symptomToHospitalLag :: real where
  "symptomToHospitalLag = 5"

definition hospitalToIcuLag :: real where
  "hospitalToIcuLag = 5"

definition infectionFatalityRateA :: real where
  "infectionFatalityRateA = 0.01"

definition infectionFatalityRateB :: real where
  "infectionFatalityRateB = infectionFatalityRateA * 3.0"

definition icuRate :: real where
  "icuRate = infectionFatalityRateA * 2"

definition beta0 :: real where
  "beta0 = r0 * gamma"

definition beta1 :: real where
  "beta1 = r1 * gamma"

definition s1 :: real where
  "s1 = 0.5 * (- (sigma + gamma) + sqrt ((sigma + gamma) ^ 2 + 4 * sigma * gamma * (r0 - 1)))"

text \<open>\<^verbatim>\<open>math.log(2.0, math.e)\<close> is the logarithm of 2 to the base \<^verbatim>\<open>e\<close>.\<close>

definition doublingTime :: real where
  "doublingTime = log (exp 1) 2.0 / s1"

subsection \<open>The rate function (lines 85 to 100)\<close>

type_synonym state = "real \<times> real \<times> real \<times> real"

text \<open>
  The parameters of \<^verbatim>\<open>model\<close> shadow the module constants of the same names; here
  they carry a prime. The division by \<open>N\<close> is numpy's: at \<open>N = 0\<close> it gives
  \<^verbatim>\<open>nan\<close> or \<^verbatim>\<open>inf\<close> with a warning, which the reals do not have, so the
  theorem on the four rates takes \<open>N \<noteq> 0\<close>.
\<close>

definition model ::
  "state \<Rightarrow> real \<Rightarrow> real \<Rightarrow> real \<Rightarrow> real \<Rightarrow> real \<Rightarrow> real \<Rightarrow> real \<Rightarrow> state" where
  "model Y x N beta0' days0 beta1' gamma' sigma' =
     (case Y of (S, E, I, R) \<Rightarrow>
        let beta = (if x < days0 then beta0' else beta1');
            dS = - beta * S * I / N;
            dE = beta * S * I / N - sigma' * E;
            dI = sigma' * E - gamma' * I;
            dR = gamma' * I
        in (dS, dE, dI, dR))"

subsection \<open>The integration (lines 103 to 110)\<close>

text \<open>
  \<^verbatim>\<open>scipy.integrate.odeint\<close> is called without \<^verbatim>\<open>full_output\<close>: it hands back the
  array of states only. Whether the integration converged is known to the solver and
  shown as a warning, never returned; the field \<open>converged\<close> stands for that status.
\<close>

record ode_result =
  rows :: "state list"
  converged :: bool

type_synonym odeint = "(state \<Rightarrow> real \<Rightarrow> state) \<Rightarrow> state \<Rightarrow> real list \<Rightarrow> ode_result"

text \<open>
  The exceptions of the script: an index past the end of an array, and a float too large
  for the integer array it is stored into. \<open>IntegrationError\<close> is the error kind the
  specification names for a failed integration; no statement of the module raises it.
\<close>

datatype error = IndexError | OverflowError | IntegrationError

text \<open>
  \<open>solve\<close> reads the module constant \<^verbatim>\<open>daysTotal\<close>; it is the parameter \<open>n\<close>
  here. The result is \<^verbatim>\<open>X, S, E, I, R\<close>: the rows of the solver, transposed.
\<close>

definition solve ::
  "odeint \<Rightarrow> nat \<Rightarrow> real \<Rightarrow> real \<Rightarrow> real \<Rightarrow> real \<Rightarrow> real \<Rightarrow> real \<Rightarrow> real \<Rightarrow>
     error + (nat list \<times> real list \<times> real list \<times> real list \<times> real list)" where
  "solve odeint' n population' E0' beta0' days0 beta1' gamma' sigma' =
     (let X = [0..<n];
          N0 = (population' - E0', E0', 0, 0);
          y_data_var = rows (odeint'
            (\<lambda>Y x. model Y x population' beta0' days0 beta1' gamma' sigma') N0 (map real X))
      in Inr (X,
              map (\<lambda>(S, E, I, R). S) y_data_var,
              map (\<lambda>(S, E, I, R). E) y_data_var,
              map (\<lambda>(S, E, I, R). I) y_data_var,
              map (\<lambda>(S, E, I, R). R) y_data_var))"

text \<open>
  Two stand-ins for the solver, for the closed examples: forward Euler steps over the
  grid, and a solver that gives up after the initial state, leaving the other rows zero.
\<close>

definition euler_step :: "(state \<Rightarrow> real \<Rightarrow> state) \<Rightarrow> state \<Rightarrow> real \<Rightarrow> real \<Rightarrow> state" where
  "euler_step f Y t h =
     (case Y of (S, E, I, R) \<Rightarrow>
        case f Y t of (dS, dE, dI, dR) \<Rightarrow> (S + h * dS, E + h * dE, I + h * dI, R + h * dR))"

fun euler_rows :: "(state \<Rightarrow> real \<Rightarrow> state) \<Rightarrow> state \<Rightarrow> real list \<Rightarrow> state list" where
  "euler_rows f Y [] = []"
| "euler_rows f Y [t] = [Y]"
| "euler_rows f Y (t # t' # ts) = Y # euler_rows f (euler_step f Y t (t' - t)) (t' # ts)"

definition euler_odeint :: odeint where
  "euler_odeint f Y ts = \<lparr>rows = euler_rows f Y ts, converged = True\<rparr>"

definition stalled_odeint :: odeint where
  "stalled_odeint f Y ts =
     \<lparr>rows = (case ts of [] \<Rightarrow> [] | t # ts' \<Rightarrow> Y # map (\<lambda>_. (0, 0, 0, 0)) ts'),
      converged = False\<rparr>"

subsection \<open>Derived series (lines 118 to 130)\<close>

text \<open>
  \<^verbatim>\<open>shared.delay\<close> is the parameter \<open>delay\<close>: it takes a series and a number of
  days and returns a series. The name \<^verbatim>\<open>F\<close> is assigned twice and \<^verbatim>\<open>U\<close> three
  times; each assignment is a definition of its own.
\<close>

type_synonym delay = "real list \<Rightarrow> real \<Rightarrow> real list"

definition F_undelayed :: "real list \<Rightarrow> real list" where
  "F_undelayed I = map (\<lambda>v. v * percent_cases_detected) I"

definition U_undelayed :: "real list \<Rightarrow> real list" where
  "U_undelayed I = map (\<lambda>v. v * icuRate * timeInHospital / timeInfected) I"

definition P_series :: "real list \<Rightarrow> real list" where
  "P_series I = map (\<lambda>v. v / population * 1000000) I"

definition F_series :: "delay \<Rightarrow> real list \<Rightarrow> real list" where
  "F_series delay' I =
     delay' (F_undelayed I) (days_presymptomatic + symptomToHospitalLag + testLag + communicationLag)"

definition U_lagged :: "delay \<Rightarrow> real list \<Rightarrow> real list" where
  "U_lagged delay' I =
     delay' (U_undelayed I) (days_presymptomatic + symptomToHospitalLag + hospitalToIcuLag)"

definition U_series :: "delay \<Rightarrow> real list \<Rightarrow> real list" where
  "U_series delay' I =
     delay' (U_lagged delay' I)
       (of_int (py_round ((timeInHospital / timeInfected - 1) * timeInfected)))"

text \<open>\<^verbatim>\<open>np.cumsum\<close>: the running total, left to right.\<close>

fun cumsum_from :: "real \<Rightarrow> real list \<Rightarrow> real list" where
  "cumsum_from acc [] = []"
| "cumsum_from acc (v # vs) = (acc + v) # cumsum_from (acc + v) vs"

definition cumsum :: "real list \<Rightarrow> real list" where
  "cumsum vs = cumsum_from 0 vs"

definition FC_series :: "delay \<Rightarrow> real list \<Rightarrow> real list" where
  "FC_series delay' I = cumsum (F_series delay' I)"

subsection \<open>The deaths loop (lines 133 to 143)\<close>

text \<open>
  \<^verbatim>\<open>D = np.arange(daysTotal)\<close> is an array of integers (int64, numpy's default on
  Linux), so the store \<^verbatim>\<open>D[i] = ...\<close> of a float converts it to a whole number first:
  the fraction is dropped (towards zero). A whole number outside the int64 range cannot
  be stored: the store raises \<^verbatim>\<open>OverflowError\<close>.
\<close>

definition trunc :: "real \<Rightarrow> int" where
  "trunc v = (if v < 0 then \<lceil>v\<rceil> else \<lfloor>v\<rfloor>)"

definition in_int64 :: "int \<Rightarrow> bool" where
  "in_int64 k = (- (2 ^ 63) \<le> k \<and> k < 2 ^ 63)"

definition IFR_of :: "real \<Rightarrow> real" where
  "IFR_of u = (if u \<le> intensive_units then infectionFatalityRateA else infectionFatalityRateB)"

text \<open>
  One iteration of the loop body for index \<open>i\<close>, on the state \<^verbatim>\<open>(D, RPrev, DPrev)\<close>.
  An index past the end of \<^verbatim>\<open>U\<close>, \<^verbatim>\<open>R\<close> or \<^verbatim>\<open>D\<close> raises, and so does the
  store of a value outside the int64 range.
\<close>

definition deaths_step ::
  "real list \<Rightarrow> real list \<Rightarrow> int list \<times> real \<times> int \<Rightarrow> nat \<Rightarrow> error + (int list \<times> real \<times> int)" where
  "deaths_step U R st i =
     (case st of (D, RPrev, DPrev) \<Rightarrow>
        if length U \<le> i then Inl IndexError
        else let IFR = IFR_of (U ! i)
             in if length R \<le> i then Inl IndexError
                else let v = of_int DPrev + IFR * (R ! i - RPrev)
                     in if length D \<le> i then Inl IndexError
                        else if \<not> in_int64 (trunc v) then Inl OverflowError
                        else let D' = D[i := trunc v]
                             in Inr (D', R ! i, D' ! i))"

fun deaths_loop ::
  "real list \<Rightarrow> real list \<Rightarrow> nat list \<Rightarrow> int list \<times> real \<times> int \<Rightarrow> error + (int list \<times> real \<times> int)" where
  "deaths_loop U R [] st = Inr st"
| "deaths_loop U R (i # js) st =
     (case deaths_step U R st i of Inl e \<Rightarrow> Inl e | Inr st' \<Rightarrow> deaths_loop U R js st')"

text \<open>
  The loop runs over \<^verbatim>\<open>enumerate(X)\<close> with \<^verbatim>\<open>X = np.arange(daysTotal)\<close>; \<open>n\<close> is
  \<^verbatim>\<open>daysTotal\<close>.
\<close>

definition deaths :: "nat \<Rightarrow> real list \<Rightarrow> real list \<Rightarrow> error + int list" where
  "deaths n U R =
     (case deaths_loop U R [0..<n] (map int [0..<n], 0, 0) of
        Inl e \<Rightarrow> Inl e
      | Inr (D, RPrev, DPrev) \<Rightarrow> Inr D)"

definition D_series :: "delay \<Rightarrow> nat \<Rightarrow> real list \<Rightarrow> real list \<Rightarrow> error + real list" where
  "D_series delay' n I R =
     (case deaths n (U_series delay' I) R of
        Inl e \<Rightarrow> Inl e
      | Inr D \<Rightarrow>
          Inr (delay' (map of_int D)
                 (- timeInfected + days_presymptomatic + symptomToHospitalLag + timeInHospital
                    + communicationLag)))"

text \<open>
  The recurrence in the words of the specification, for comparison with the loop:
  \<open>Deaths[i] = Deaths[i-1] + IFR(i) * (R[i] - R[i-1])\<close> with \<open>R[-1] = 0\<close> and
  \<open>Deaths[-1] = 0\<close>, over the reals.
\<close>

fun Deaths_spec :: "real list \<Rightarrow> real list \<Rightarrow> nat \<Rightarrow> real" where
  "Deaths_spec U R 0 = IFR_of (U ! 0) * (R ! 0 - 0)"
| "Deaths_spec U R (Suc i) = Deaths_spec U R i + IFR_of (U ! Suc i) * (R ! Suc i - R ! i)"

text \<open>
  The same recurrence with the fraction dropped on every day and the whole number
  carried into the next day, over unbounded integers: what the loop stores as long as
  no day leaves the int64 range.
\<close>

fun Deaths_truncated :: "real list \<Rightarrow> real list \<Rightarrow> nat \<Rightarrow> int" where
  "Deaths_truncated U R 0 = trunc (of_int 0 + IFR_of (U ! 0) * (R ! 0 - 0))"
| "Deaths_truncated U R (Suc i) =
     trunc (of_int (Deaths_truncated U R i) + IFR_of (U ! Suc i) * (R ! Suc i - R ! i))"

text \<open>
  The float the loop assigns on day \<open>i\<close>, \<^verbatim>\<open>DPrev + IFR * (R[i] - RPrev)\<close>, with
  \<^verbatim>\<open>DPrev\<close> and \<^verbatim>\<open>RPrev\<close> read back from the finished arrays (both are 0 on day 0).
\<close>

definition assigned :: "real list \<Rightarrow> real list \<Rightarrow> int list \<Rightarrow> nat \<Rightarrow> real" where
  "assigned U R D i =
     of_int (if i = 0 then 0 else D ! (i - 1))
       + IFR_of (U ! i) * (R ! i - (if i = 0 then 0 else R ! (i - 1)))"

text \<open>
  The state \<^verbatim>\<open>(D, RPrev, DPrev)\<close> of the loop after the days before \<open>k\<close>, when none of
  them left the int64 range: the entries written so far, the rest of \<^verbatim>\<open>np.arange\<close>
  untouched, and the values of day \<open>k - 1\<close> carried along.
\<close>

definition D_after :: "real list \<Rightarrow> real list \<Rightarrow> nat \<Rightarrow> nat \<Rightarrow> int list \<times> real \<times> int" where
  "D_after U R n k =
     (map (Deaths_truncated U R) [0..<k] @ map int [k..<n],
      (if k = 0 then 0 else R ! (k - 1)),
      (if k = 0 then 0 else Deaths_truncated U R (k - 1)))"

text \<open>
  A stand-in for \<^verbatim>\<open>shared.delay\<close> in the closed examples: a shift to the right by
  the whole days of \<open>d\<close>, filled with zeros, the tail falling off.
\<close>

definition shift_delay :: delay where
  "shift_delay V d = take (length V) (replicate (nat \<lfloor>d\<rfloor>) 0 @ V)"

section \<open>Values of the constants\<close>

lemma sigma_val: "sigma = 10 / 27"
  by (simp add: sigma_def days_to_incubation_def days_presymptomatic_def)

lemma gamma_val: "gamma = 5 / 19"
  by (simp add: gamma_def sigma_val generation_time_def)

lemma timeInfected_val: "timeInfected = 19 / 5"
  by (simp add: timeInfected_def gamma_val)

lemma percent_cases_detected_val: "percent_cases_detected = 13 / 400"
  by (simp add: percent_cases_detected_def percent_asymptomatic_def)

text \<open>
  No division of lines 50 to 82 is by zero, so none raises \<^verbatim>\<open>ZeroDivisionError\<close>, and
  the square root of line 80 has a positive argument.
\<close>

lemma constants_defined:
  "days_to_incubation - days_presymptomatic \<noteq> 0 \<and> sigma \<noteq> 0
   \<and> 2.0 * (generation_time - 1.0 / sigma) \<noteq> 0 \<and> gamma \<noteq> 0
   \<and> 0 < (sigma + gamma) ^ 2 + 4 * sigma * gamma * (r0 - 1)"
  by (simp add: sigma_val gamma_val days_to_incubation_def days_presymptomatic_def
      generation_time_def r0_def power2_eq_square)

lemma s1_pos: "0 < s1"
proof -
  have "(sigma + gamma) ^ 2 < (sigma + gamma) ^ 2 + 4 * sigma * gamma * (r0 - 1)"
    by (simp add: sigma_val gamma_val r0_def)
  then have "sqrt ((sigma + gamma) ^ 2) < sqrt ((sigma + gamma) ^ 2 + 4 * sigma * gamma * (r0 - 1))"
    by (simp only: real_sqrt_less_iff)
  moreover have "sqrt ((sigma + gamma) ^ 2) = sigma + gamma"
    by (simp add: sigma_val gamma_val)
  ultimately show ?thesis
    by (simp add: s1_def)
qed

text \<open>
  The whole-day lag \<^verbatim>\<open>presymptomaticLag\<close> is \<^verbatim>\<open>round(2.5)\<close>, which is 2 in
  Python 3. No later line reads it: the delays below add \<^verbatim>\<open>days_presymptomatic\<close>, 2.5.
\<close>

lemma presymptomaticLag_val: "presymptomaticLag = 2"
  by (simp add: presymptomaticLag_def py_round_def days_presymptomatic_def Let_def)

lemma correction_days: "py_round ((timeInHospital / timeInfected - 1) * timeInfected) = 8"
proof -
  have v: "(timeInHospital / timeInfected - 1) * timeInfected = 41 / 5"
    by (simp add: timeInHospital_def timeInfected_val)
  have f: "\<lfloor>41 / 5 :: real\<rfloor> = 8"
    by linarith
  show ?thesis
    unfolding v by (simp add: py_round_def Let_def f)
qed

lemma F_lag_val: "days_presymptomatic + symptomToHospitalLag + testLag + communicationLag = 25 / 2"
  by (simp add: days_presymptomatic_def symptomToHospitalLag_def testLag_def communicationLag_def)

lemma U_lag_val: "days_presymptomatic + symptomToHospitalLag + hospitalToIcuLag = 25 / 2"
  by (simp add: days_presymptomatic_def symptomToHospitalLag_def hospitalToIcuLag_def)

lemma D_lag_val:
  "- timeInfected + days_presymptomatic + symptomToHospitalLag + timeInHospital + communicationLag
     = 177 / 10"
  by (simp add: timeInfected_val days_presymptomatic_def symptomToHospitalLag_def
      timeInHospital_def communicationLag_def)

section \<open>The rate function\<close>

text \<open>
  Claim C2. For every state \<open>(S, E, I, R)\<close>, population \<open>N\<close> (not zero), day \<open>x\<close>
  and parameters, \<open>model\<close> returns \<open>dS = - \<beta> S I / N\<close>, \<open>dE = \<beta> S I / N - \<sigma> E\<close>,
  \<open>dI = \<sigma> E - \<gamma> I\<close>, \<open>dR = \<gamma> I\<close>, where \<open>\<beta>\<close> is \<open>\<beta>0\<close> when the day is before the
  switch day and \<open>\<beta>1\<close> otherwise; on the switch day itself it is \<open>\<beta>1\<close>.
\<close>

theorem model_derivative:
  assumes "N \<noteq> 0"
  shows "model (S, E, I, R) x N b0 d0 b1 g s =
           (- (if x < d0 then b0 else b1) * S * I / N,
            (if x < d0 then b0 else b1) * S * I / N - s * E,
            s * E - g * I,
            g * I)
         \<and> model (S, E, I, R) d0 N b0 d0 b1 g s =
           (- b1 * S * I / N, b1 * S * I / N - s * E, s * E - g * I, g * I)"
  by (simp add: model_def Let_def)

theorem model_derivative_witness:
  "(1000::real) \<noteq> 0 \<and>
   model (900, 50, 40, 10) 59 1000 (3 / 4) 60 (1 / 4) (1 / 4) (1 / 3) = (- 27, 31 / 3, 20 / 3, 10) \<and>
   model (900, 50, 40, 10) 60 1000 (3 / 4) 60 (1 / 4) (1 / 4) (1 / 3) = (- 9, - (23 / 3), 20 / 3, 10)"
  using model_derivative [of 1000 900 50 40 10 59 "3 / 4" 60 "1 / 4" "1 / 4" "1 / 3"]
  by simp

text \<open>
  Over the reals the four rates cancel, and so the total \<open>S + E + I + R\<close> is constant
  along every exact solution of the system: continuous functions that have the rates of
  \<open>model\<close> as derivatives on every day but the switch day, where the rates jump. (What
  the numerical solver returns for the total is a matter of its floating-point steps and
  is not covered here.)
\<close>

lemma model_sum_zero:
  "model Y x N b0 d0 b1 g s = (dS, dE, dI, dR) \<Longrightarrow> dS + dE + dI + dR = 0"
  by (auto simp add: model_def Let_def split: prod.splits)

lemma exact_solution_conserved:
  fixes S E I R :: "real \<Rightarrow> real"
  assumes cont: "continuous_on UNIV S" "continuous_on UNIV E" "continuous_on UNIV I"
      "continuous_on UNIV R"
    and der: "\<And>t. t \<noteq> d0 \<Longrightarrow> \<exists>dS dE dI dR.
             model (S t, E t, I t, R t) t N b0 d0 b1 g s = (dS, dE, dI, dR)
             \<and> (S has_real_derivative dS) (at t) \<and> (E has_real_derivative dE) (at t)
             \<and> (I has_real_derivative dI) (at t) \<and> (R has_real_derivative dR) (at t)"
    and "0 \<le> t"
  shows "S t + E t + I t + R t = S 0 + E 0 + I 0 + R 0"
proof -
  let ?f = "\<lambda>t. S t + E t + I t + R t"
  have d0: "(?f has_real_derivative 0) (at x)" if "x \<noteq> d0" for x
  proof -
    from der [OF that] obtain dS dE dI dR where
      m: "model (S x, E x, I x, R x) x N b0 d0 b1 g s = (dS, dE, dI, dR)"
      and d: "(S has_real_derivative dS) (at x)" "(E has_real_derivative dE) (at x)"
        "(I has_real_derivative dI) (at x)" "(R has_real_derivative dR) (at x)"
      by blast
    have "(?f has_real_derivative dS + dE + dI + dR) (at x)"
      by (intro DERIV_add d)
    with model_sum_zero [OF m] show ?thesis by simp
  qed
  have c: "continuous_on A ?f" for A
    by (intro continuous_intros continuous_on_subset [OF cont(1)]
        continuous_on_subset [OF cont(2)] continuous_on_subset [OF cont(3)]
        continuous_on_subset [OF cont(4)]) simp_all
  have piece: "?f b = ?f a" if "a \<le> b" and "\<And>x. a < x \<Longrightarrow> x < b \<Longrightarrow> x \<noteq> d0" for a b
  proof (cases "a < b")
    case True
    show ?thesis
      by (rule DERIV_isconst_end [OF True c]) (rule d0, rule that(2))
  next
    case False
    with that(1) show ?thesis by simp
  qed
  show ?thesis
  proof (cases "0 < d0 \<and> d0 < t")
    case True
    then have "?f d0 = ?f 0"
      by (intro piece) simp_all
    moreover from True have "?f t = ?f d0"
      by (intro piece) simp_all
    ultimately show ?thesis by simp
  next
    case False
    with \<open>0 \<le> t\<close> show ?thesis
      by (intro piece) auto
  qed
qed

section \<open>The integration\<close>

lemma upt_3: "[0..<3] = [0, 1, 2]"
  by (simp add: eval_nat_numeral)

lemma upt_4: "[0..<4] = [0, 1, 2, 3]"
  by (simp add: eval_nat_numeral)

lemma solve_unfold:
  "solve ode n N e0 b0 d0 b1 g s =
     Inr ([0..<n],
          map (\<lambda>(S, E, I, R). S)
            (rows (ode (\<lambda>Y x. model Y x N b0 d0 b1 g s) (N - e0, e0, 0, 0) (map real [0..<n]))),
          map (\<lambda>(S, E, I, R). E)
            (rows (ode (\<lambda>Y x. model Y x N b0 d0 b1 g s) (N - e0, e0, 0, 0) (map real [0..<n]))),
          map (\<lambda>(S, E, I, R). I)
            (rows (ode (\<lambda>Y x. model Y x N b0 d0 b1 g s) (N - e0, e0, 0, 0) (map real [0..<n]))),
          map (\<lambda>(S, E, I, R). R)
            (rows (ode (\<lambda>Y x. model Y x N b0 d0 b1 g s) (N - e0, e0, 0, 0) (map real [0..<n]))))"
  by (simp add: solve_def Let_def)

lemma euler_rows_length: "length (euler_rows f Y ts) = length ts"
  by (induction f Y ts rule: euler_rows.induct) simp_all

text \<open>
  Claim C4, as amended. \<open>solve\<close> has no error path: for every solver and every input it
  returns normally, with the rows the solver handed back transposed into \<open>S, E, I, R\<close>.
  Whether the solver converged does not reach the result, so a failed integration is not
  surfaced as an error.
\<close>

theorem solve_never_fails:
  "solve ode n N e0 b0 d0 b1 g s \<noteq> Inl e
   \<and> solve (\<lambda>f Y ts. (ode f Y ts)\<lparr>converged := c\<rparr>) n N e0 b0 d0 b1 g s
       = solve ode n N e0 b0 d0 b1 g s
   \<and> solve ode n N e0 b0 d0 b1 g s =
       Inr ([0..<n],
          map (\<lambda>(S, E, I, R). S)
            (rows (ode (\<lambda>Y x. model Y x N b0 d0 b1 g s) (N - e0, e0, 0, 0) (map real [0..<n]))),
          map (\<lambda>(S, E, I, R). E)
            (rows (ode (\<lambda>Y x. model Y x N b0 d0 b1 g s) (N - e0, e0, 0, 0) (map real [0..<n]))),
          map (\<lambda>(S, E, I, R). I)
            (rows (ode (\<lambda>Y x. model Y x N b0 d0 b1 g s) (N - e0, e0, 0, 0) (map real [0..<n]))),
          map (\<lambda>(S, E, I, R). R)
            (rows (ode (\<lambda>Y x. model Y x N b0 d0 b1 g s) (N - e0, e0, 0, 0) (map real [0..<n]))))"
  by (simp add: solve_unfold)

text \<open>
  The claim as first stated fails: with a solver that does not converge and leaves all
  rows after the first at zero, \<open>solve\<close> returns those rows as the trajectory and no
  \<open>IntegrationError\<close>.
\<close>

theorem solve_stalled_counterexample:
  "\<not> converged (stalled_odeint (\<lambda>Y x. model Y x 100 (1 / 2) 1 (1 / 4) (1 / 4) (1 / 2))
        (100 - 1, 1, 0, 0) (map real [0..<3]))
   \<and> solve stalled_odeint 3 100 1 (1 / 2) 1 (1 / 4) (1 / 4) (1 / 2) \<noteq> Inl IntegrationError
   \<and> solve stalled_odeint 3 100 1 (1 / 2) 1 (1 / 4) (1 / 4) (1 / 2)
       = Inr ([0, 1, 2], [99, 0, 0], [1, 0, 0], [0, 0, 0], [0, 0, 0])"
  by (simp add: stalled_odeint_def upt_3 solve_unfold)

text \<open>
  What the module itself decides about the trajectory: \<open>solve\<close> hands the solver the
  rate function, the initial state \<open>(N - E0, E0, 0, 0)\<close> and the day grid
  \<open>0, 1, ..., n - 1\<close>, and transposes the rows it gets back. The integration and the
  number of rows are the solver's; for a solver that returns one row per grid day the
  four series have length \<open>n\<close>.
\<close>

lemma solve_passes_grid:
  assumes "1 \<le> n"
    and "length (rows (ode (\<lambda>Y x. model Y x N b0 d0 b1 g s) (N - e0, e0, 0, 0)
           (map real [0..<n]))) = n"
  shows "\<exists>S E I R. solve ode n N e0 b0 d0 b1 g s = Inr ([0..<n], S, E, I, R)
           \<and> length S = n \<and> length E = n \<and> length I = n \<and> length R = n
           \<and> (\<forall>i<n. (S ! i, E ! i, I ! i, R ! i) =
                 rows (ode (\<lambda>Y x. model Y x N b0 d0 b1 g s) (N - e0, e0, 0, 0)
                   (map real [0..<n])) ! i)"
proof -
  let ?ys = "rows (ode (\<lambda>Y x. model Y x N b0 d0 b1 g s) (N - e0, e0, 0, 0) (map real [0..<n]))"
  have "(map (\<lambda>(S, E, I, R). S) ?ys ! i, map (\<lambda>(S, E, I, R). E) ?ys ! i,
         map (\<lambda>(S, E, I, R). I) ?ys ! i, map (\<lambda>(S, E, I, R). R) ?ys ! i) = ?ys ! i"
    if "i < n" for i
    using that assms(2) by (simp add: case_prod_beta)
  then show ?thesis
    using assms(2) by (simp add: solve_unfold)
qed

lemma solve_euler_example:
  "(1::nat) \<le> 3
   \<and> length (rows (euler_odeint (\<lambda>Y x. model Y x 100 (1 / 2) 1 (1 / 4) (1 / 4) (1 / 2))
        (100 - 1, 1, 0, 0) (map real [0..<3]))) = 3
   \<and> solve euler_odeint 3 100 1 (1 / 2) 1 (1 / 4) (1 / 4) (1 / 2)
       = Inr ([0, 1, 2], [99, 99, 79101 / 800], [1, 1 / 2, 299 / 800], [0, 1 / 2, 5 / 8],
              [0, 0, 1 / 8])"
proof -
  have r: "rows (euler_odeint (\<lambda>Y x. model Y x 100 (1 / 2) 1 (1 / 4) (1 / 4) (1 / 2))
        (100 - 1, 1, 0, 0) (map real [0..<3]))
      = [(99, 1, 0, 0), (99, 1 / 2, 1 / 2, 0), (79101 / 800, 299 / 800, 5 / 8, 1 / 8)]"
    by (simp add: euler_odeint_def upt_3 euler_step_def model_def Let_def)
  have s: "solve euler_odeint 3 100 1 (1 / 2) 1 (1 / 4) (1 / 4) (1 / 2)
       = Inr ([0, 1, 2], [99, 99, 79101 / 800], [1, 1 / 2, 299 / 800], [0, 1 / 2, 5 / 8],
              [0, 0, 1 / 8])"
    unfolding solve_unfold r by (simp add: upt_3)
  have l: "length (rows (euler_odeint (\<lambda>Y x. model Y x 100 (1 / 2) 1 (1 / 4) (1 / 4) (1 / 2))
        (100 - 1, 1, 0, 0) (map real [0..<3]))) = 3"
    unfolding r by simp
  from solve_passes_grid [of 3 euler_odeint 100 "1 / 2" 1 "1 / 4" "1 / 4" "1 / 2" 1, OF _ l]
  have "\<exists>S E I R. solve euler_odeint 3 100 1 (1 / 2) 1 (1 / 4) (1 / 4) (1 / 2)
          = Inr ([0..<3], S, E, I, R)"
    by fastforce
  with s l show ?thesis by simp
qed

section \<open>Detected cases, ICU load and cumulative cases\<close>

lemma floor_lag_12: "nat \<lfloor>25 / 2 :: real\<rfloor> = 12"
proof -
  have "\<lfloor>25 / 2 :: real\<rfloor> = 12"
    by linarith
  then show ?thesis by simp
qed

lemma shift_delay_pad:
  "nat \<lfloor>d\<rfloor> = k \<Longrightarrow> k \<le> m \<Longrightarrow>
     shift_delay (vs @ replicate m 0) d = replicate k 0 @ vs @ replicate (m - k) 0"
  by (simp add: shift_delay_def min_def)

lemma F_series_ex:
  "F_series shift_delay ([400, 800, 1200] @ replicate 12 0)
     = replicate 12 0 @ [13, 26, 39] @ replicate 0 0"
proof -
  have u: "F_undelayed ([400, 800, 1200] @ replicate 12 0) = [13, 26, 39] @ replicate 12 0"
    by (simp add: F_undelayed_def percent_cases_detected_val)
  have "shift_delay ([13, 26, 39] @ replicate 12 0) (25 / 2)
          = replicate 12 0 @ [13, 26, 39] @ replicate (12 - 12) 0"
    by (rule shift_delay_pad [OF floor_lag_12]) simp
  then show ?thesis
    unfolding F_series_def F_lag_val u by simp
qed

text \<open>
  Claim C6. For every trajectory, the detected cases are \<open>I[i] * percent_cases_detected\<close>
  on every day \<open>i\<close>, and that whole series is then delayed once, by the sum of the
  presymptomatic days, the symptom-to-hospital lag, the test lag and the communication
  lag (12.5 days with the constants of the module).
\<close>

theorem F_series_detected_delay:
  "F_series dl I =
     dl (map (\<lambda>v. v * percent_cases_detected) I)
        (days_presymptomatic + symptomToHospitalLag + testLag + communicationLag)
   \<and> days_presymptomatic + symptomToHospitalLag + testLag + communicationLag = 12.5
   \<and> length (F_undelayed I) = length I
   \<and> (\<forall>i<length I. F_undelayed I ! i = I ! i * percent_cases_detected)"
  by (simp add: F_series_def F_undelayed_def F_lag_val)

theorem F_series_detected_delay_witness:
  "F_series shift_delay ([400, 800, 1200] @ replicate 12 0) = replicate 12 0 @ [13, 26, 39]
   \<and> F_undelayed ([400, 800, 1200] @ replicate 12 0) ! 1 = 800 * percent_cases_detected
   \<and> F_undelayed ([400, 800, 1200] @ replicate 12 0) ! 1 = 26"
proof -
  let ?I = "[400, 800, 1200] @ replicate 12 (0::real)"
  from F_series_detected_delay [of shift_delay ?I]
  have "\<forall>i<length ?I. F_undelayed ?I ! i = ?I ! i * percent_cases_detected"
    by blast
  then have "F_undelayed ?I ! 1 = ?I ! 1 * percent_cases_detected"
    by simp
  then have "F_undelayed ?I ! 1 = 800 * percent_cases_detected"
    by simp
  moreover have "800 * percent_cases_detected = 26"
    by (simp add: percent_cases_detected_val)
  moreover have "F_series shift_delay ?I = replicate 12 0 @ [13, 26, 39]"
    using F_series_ex by simp
  ultimately show ?thesis by simp
qed

lemma U_series_ex:
  "U_series shift_delay ([950, 1900] @ replicate 20 0)
     = replicate 8 0 @ replicate 12 0 @ [60, 120]"
proof -
  have u: "U_undelayed ([950, 1900] @ replicate 20 0) = [60, 120] @ replicate 20 0"
    by (simp add: U_undelayed_def icuRate_def infectionFatalityRateA_def timeInHospital_def
        timeInfected_val)
  have "shift_delay ([60, 120] @ replicate 20 0) (25 / 2)
          = replicate 12 0 @ [60, 120] @ replicate (20 - 12) 0"
    by (rule shift_delay_pad [OF floor_lag_12]) simp
  then have l: "U_lagged shift_delay ([950, 1900] @ replicate 20 0)
          = (replicate 12 0 @ [60, 120]) @ replicate 8 0"
    unfolding U_lagged_def U_lag_val u by simp
  have "shift_delay ((replicate 12 0 @ [60, 120]) @ replicate 8 0) 8
          = replicate 8 0 @ (replicate 12 0 @ [60, 120]) @ replicate (8 - 8) 0"
    by (rule shift_delay_pad) simp_all
  then show ?thesis
    unfolding U_series_def correction_days l by simp
qed

text \<open>
  Claim C7. For every trajectory, the ICU load is
  \<open>I[i] * icuRate * (timeInHospital / timeInfected)\<close> on every day \<open>i\<close>; the series is
  delayed by the presymptomatic days plus the symptom-to-hospital and hospital-to-ICU
  lags (12.5 days), and the result once more by
  \<^verbatim>\<open>round((timeInHospital / timeInfected - 1) * timeInfected)\<close> days, which is 8.
\<close>

theorem U_series_icu_delay:
  "U_series dl I =
     dl (dl (map (\<lambda>v. v * icuRate * (timeInHospital / timeInfected)) I)
           (days_presymptomatic + symptomToHospitalLag + hospitalToIcuLag))
        (of_int (py_round ((timeInHospital / timeInfected - 1) * timeInfected)))
   \<and> days_presymptomatic + symptomToHospitalLag + hospitalToIcuLag = 12.5
   \<and> py_round ((timeInHospital / timeInfected - 1) * timeInfected) = 8
   \<and> length (U_undelayed I) = length I
   \<and> (\<forall>i<length I. U_undelayed I ! i = I ! i * icuRate * (timeInHospital / timeInfected))"
  by (simp add: U_series_def U_lagged_def U_undelayed_def U_lag_val correction_days)

theorem U_series_icu_delay_witness:
  "U_series shift_delay ([950, 1900] @ replicate 20 0)
     = replicate 8 0 @ replicate 12 0 @ [60, 120]
   \<and> U_undelayed ([950, 1900] @ replicate 20 0) ! 1
       = 1900 * icuRate * (timeInHospital / timeInfected)
   \<and> U_undelayed ([950, 1900] @ replicate 20 0) ! 1 = 120"
proof -
  let ?I = "[950, 1900] @ replicate 20 (0::real)"
  from U_series_icu_delay [of shift_delay ?I]
  have "\<forall>i<length ?I. U_undelayed ?I ! i = ?I ! i * icuRate * (timeInHospital / timeInfected)"
    by blast
  then have "U_undelayed ?I ! 1 = ?I ! 1 * icuRate * (timeInHospital / timeInfected)"
    by simp
  then have "U_undelayed ?I ! 1 = 1900 * icuRate * (timeInHospital / timeInfected)"
    by simp
  moreover have "1900 * icuRate * (timeInHospital / timeInfected) = 120"
    by (simp add: icuRate_def infectionFatalityRateA_def timeInHospital_def timeInfected_val)
  ultimately show ?thesis
    using U_series_ex by simp
qed

lemma cumsum_from_length: "length (cumsum_from a vs) = length vs"
  by (induction vs arbitrary: a) simp_all

lemma cumsum_from_nth:
  "i < length vs \<Longrightarrow> cumsum_from a vs ! i = a + sum_list (take (Suc i) vs)"
proof (induction vs arbitrary: a i)
  case Nil
  then show ?case by simp
next
  case (Cons v vs)
  show ?case
  proof (cases i)
    case 0
    then show ?thesis by simp
  next
    case (Suc k)
    with Cons.prems have "k < length vs" by simp
    from Cons.IH [OF this, of "a + v"] Suc show ?thesis by simp
  qed
qed

lemma cumsum_from_pad: "cumsum_from a (replicate k 0 @ vs) = replicate k a @ cumsum_from a vs"
  by (induction k) simp_all

lemma sum_list_take_mono:
  fixes vs :: "real list"
  assumes "\<forall>v\<in>set vs. 0 \<le> v" and "i \<le> j"
  shows "sum_list (take i vs) \<le> sum_list (take j vs)"
proof -
  have "take j vs = take i vs @ drop i (take j vs)"
    using assms(2) by (metis append_take_drop_id min.absorb1 take_take)
  then have "sum_list (take j vs) = sum_list (take i vs) + sum_list (drop i (take j vs))"
    by (metis sum_list_append)
  moreover have "0 \<le> sum_list (drop i (take j vs))"
  proof (rule sum_list_nonneg)
    fix x assume "x \<in> set (drop i (take j vs))"
    then have "x \<in> set vs"
      by (meson in_set_dropD in_set_takeD)
    with assms(1) show "0 \<le> x" by blast
  qed
  ultimately show ?thesis by simp
qed

lemma FC_series_ex:
  "FC_series shift_delay ([400, 800, 1200] @ replicate 12 0) = replicate 12 0 @ [13, 39, 78]"
proof -
  have "F_series shift_delay ([400, 800, 1200] @ replicate 12 0) = replicate 12 0 @ [13, 26, 39]"
    using F_series_ex by simp
  then show ?thesis
    unfolding FC_series_def cumsum_def by (simp only: cumsum_from_pad) simp
qed

text \<open>
  Claim C8. The cumulative cases on day \<open>j\<close> are the sum of the detected cases of days
  \<open>0\<close> to \<open>j\<close>; so when no detected value is negative, the cumulative cases never
  decrease from a day \<open>i\<close> to a later day \<open>j\<close>.
\<close>

theorem FC_running_sum:
  assumes "j < length (F_series dl I)" and "i \<le> j"
  shows "length (FC_series dl I) = length (F_series dl I)
         \<and> FC_series dl I ! j = sum_list (take (Suc j) (F_series dl I))
         \<and> ((\<forall>v\<in>set (F_series dl I). 0 \<le> v) \<longrightarrow> FC_series dl I ! i \<le> FC_series dl I ! j)"
proof -
  let ?F = "F_series dl I"
  from assms have i: "i < length ?F" by simp
  have len: "length (FC_series dl I) = length ?F"
    by (simp add: FC_series_def cumsum_def cumsum_from_length)
  have nj: "FC_series dl I ! j = sum_list (take (Suc j) ?F)"
    using assms(1) by (simp add: FC_series_def cumsum_def cumsum_from_nth)
  have ni: "FC_series dl I ! i = sum_list (take (Suc i) ?F)"
    using i by (simp add: FC_series_def cumsum_def cumsum_from_nth)
  have "FC_series dl I ! i \<le> FC_series dl I ! j" if "\<forall>v\<in>set ?F. 0 \<le> v"
    unfolding ni nj using that assms(2) by (intro sum_list_take_mono) simp_all
  with len nj show ?thesis by blast
qed

theorem FC_running_sum_witness:
  "(14::nat) < length (F_series shift_delay ([400, 800, 1200] @ replicate 12 0))
   \<and> (13::nat) \<le> 14
   \<and> FC_series shift_delay ([400, 800, 1200] @ replicate 12 0) ! 14
       = sum_list (take (Suc 14) (F_series shift_delay ([400, 800, 1200] @ replicate 12 0)))
   \<and> FC_series shift_delay ([400, 800, 1200] @ replicate 12 0) ! 14 = 78
   \<and> FC_series shift_delay ([400, 800, 1200] @ replicate 12 0) ! 13 = 39
   \<and> FC_series shift_delay ([400, 800, 1200] @ replicate 12 0) ! 13
       \<le> FC_series shift_delay ([400, 800, 1200] @ replicate 12 0) ! 14"
proof -
  let ?I = "[400, 800, 1200] @ replicate 12 (0::real)"
  have f: "F_series shift_delay ?I = replicate 12 0 @ [13, 26, 39]"
    using F_series_ex by simp
  have l: "14 < length (F_series shift_delay ?I)"
    unfolding f by simp
  have p: "\<forall>v\<in>set (F_series shift_delay ?I). 0 \<le> v"
    unfolding f by auto
  have a: "FC_series shift_delay ?I ! 14 = 78"
    unfolding FC_series_ex by (simp add: nth_append)
  have b: "FC_series shift_delay ?I ! 13 = 39"
    unfolding FC_series_ex by (simp add: nth_append)
  from FC_running_sum [OF l, of 13] p a b l show ?thesis
    by simp
qed

section \<open>Deaths\<close>

lemma trunc_near: "\<bar>of_int (trunc v) - v\<bar> < 1"
  unfolding trunc_def by (cases "v < 0") (simp_all, linarith+)

lemma deaths_loop_append:
  "deaths_loop U R (js @ ks) st =
     (case deaths_loop U R js st of Inl e \<Rightarrow> Inl e | Inr st' \<Rightarrow> deaths_loop U R ks st')"
  by (induction js arbitrary: st) (simp_all split: sum.splits)

lemma D_after_0: "D_after U R n 0 = (map int [0..<n], 0, 0)"
  by (simp add: D_after_def)

lemma Deaths_truncated_step:
  "Deaths_truncated U R k =
     trunc (of_int (if k = 0 then 0 else Deaths_truncated U R (k - 1))
            + IFR_of (U ! k) * (R ! k - (if k = 0 then 0 else R ! (k - 1))))"
  by (cases k) simp_all

text \<open>
  One day of the loop: from the state after the days before \<open>k\<close> it stores the truncated
  value of day \<open>k\<close>, or raises when that value does not fit.
\<close>

lemma deaths_step_at:
  assumes "k < n" and "n \<le> length U" and "n \<le> length R"
  shows "deaths_step U R (D_after U R n k) k =
           (if in_int64 (Deaths_truncated U R k) then Inr (D_after U R n (Suc k))
            else Inl OverflowError)"
proof -
  have upd: "(map (Deaths_truncated U R) [0..<k] @ map int [k..<n])[k := v]
        = map (Deaths_truncated U R) [0..<k] @ v # map int [Suc k..<n]" for v
    using assms(1) by (simp add: list_update_append upt_conv_Cons)
  have nth: "(map (Deaths_truncated U R) [0..<k] @ v # map int [Suc k..<n]) ! k = v" for v
    by (simp add: nth_append)
  show ?thesis
    using assms upd nth Deaths_truncated_step [of U R k]
    by (simp add: deaths_step_def D_after_def Let_def)
qed

lemma deaths_loop_prefix:
  assumes "n \<le> length U" and "n \<le> length R"
  shows "k \<le> n \<Longrightarrow> \<forall>i<k. in_int64 (Deaths_truncated U R i) \<Longrightarrow>
     deaths_loop U R [0..<k] (D_after U R n 0) = Inr (D_after U R n k)"
proof (induction k)
  case 0
  then show ?case by simp
next
  case (Suc k)
  then have run: "deaths_loop U R [0..<k] (D_after U R n 0) = Inr (D_after U R n k)"
    by simp
  from Suc.prems have "k < n" and "in_int64 (Deaths_truncated U R k)"
    by simp_all
  with deaths_step_at [OF _ assms, of k]
  have "deaths_step U R (D_after U R n k) k = Inr (D_after U R n (Suc k))"
    by simp
  with run show ?case
    by (simp add: deaths_loop_append)
qed

lemma deaths_in_range:
  assumes "n \<le> length U" and "n \<le> length R"
    and "\<forall>i<n. in_int64 (Deaths_truncated U R i)"
  shows "deaths n U R = Inr (map (Deaths_truncated U R) [0..<n])"
  using deaths_loop_prefix [OF assms(1,2), of n] assms(3)
  by (simp add: deaths_def D_after_0) (simp add: D_after_def)

text \<open>
  The first day whose truncated value leaves the int64 range ends the loop, and the
  script, with an OverflowError.
\<close>

lemma deaths_overflow:
  assumes "n \<le> length U" and "n \<le> length R" and "k < n"
    and "\<forall>i<k. in_int64 (Deaths_truncated U R i)"
    and "\<not> in_int64 (Deaths_truncated U R k)"
  shows "deaths n U R = Inl OverflowError"
proof -
  have "[0..<k + (n - k)] = [0..<k] @ [k..<k + (n - k)]"
    by (rule upt_add_eq_append) simp
  then have "[0..<k] @ [k..<n] = [0..<n]"
    using assms(3) by simp
  moreover have "[k..<n] = k # [Suc k..<n]"
    using assms(3) by (rule upt_conv_Cons)
  ultimately have split: "[0..<n] = [0..<k] @ k # [Suc k..<n]"
    by simp
  have pre: "deaths_loop U R [0..<k] (D_after U R n 0) = Inr (D_after U R n k)"
    using deaths_loop_prefix [OF assms(1,2), of k] assms(3,4) by simp
  have stp: "deaths_step U R (D_after U R n k) k = Inl OverflowError"
    using deaths_step_at [OF assms(3) assms(1,2)] assms(5) by simp
  have "deaths_loop U R ([0..<k] @ k # [Suc k..<n]) (D_after U R n 0) = Inl OverflowError"
    by (simp add: deaths_loop_append pre stp)
  moreover have "deaths_loop U R [0..<n] (D_after U R n 0)
      = deaths_loop U R ([0..<k] @ k # [Suc k..<n]) (D_after U R n 0)"
    by (subst split) (rule refl)
  ultimately have "deaths_loop U R [0..<n] (map int [0..<n], 0, 0) = Inl OverflowError"
    by (simp only: D_after_0)
  then show ?thesis
    by (simp add: deaths_def)
qed

lemma assigned_truncated:
  assumes "i < n"
  shows "assigned U R (map (Deaths_truncated U R) [0..<n]) i
           = of_int (if i = 0 then 0 else Deaths_truncated U R (i - 1))
             + IFR_of (U ! i) * (R ! i - (if i = 0 then 0 else R ! (i - 1)))"
  using assms by (simp add: assigned_def)

lemmas deaths_eval = deaths_def deaths_step_def Let_def IFR_of_def intensive_units_def
  infectionFatalityRateA_def infectionFatalityRateB_def trunc_def in_int64_def

text \<open>A series \<^verbatim>\<open>U\<close> or \<^verbatim>\<open>R\<close> shorter than the grid stops the loop with an IndexError.\<close>

lemma deaths_short_series: "deaths 3 [0, 0] [50, 100, 150] = Inl IndexError"
  by (simp add: upt_3 deaths_eval)

text \<open>A recovered count of \<open>10^21\<close> gives \<open>10^19\<close> deaths on day 0, past the int64 range.\<close>

lemma deaths_too_large: "deaths 2 [0, 0] [10 ^ 21, 10 ^ 21] = Inl OverflowError"
proof -
  have "[0..<2] = [0, 1]"
    by (simp add: eval_nat_numeral)
  moreover have "\<lfloor>10 ^ 19 :: real\<rfloor> = 10 ^ 19"
    by (metis floor_of_int of_int_numeral of_int_power)
  ultimately show ?thesis
    by (simp add: deaths_eval)
qed

text \<open>
  After the loop the series is delayed by
  \<^verbatim>\<open>- timeInfected + days_presymptomatic + symptomToHospitalLag + timeInHospital + communicationLag\<close>,
  17.7 days, and the ICU series the loop compares with the capacity is the delayed one.
\<close>

lemma D_series_delay:
  "deaths n (U_series dl I) R = Inr D \<Longrightarrow>
     D_series dl n I R = Inr (dl (map of_int D) (177 / 10))"
  unfolding D_series_def D_lag_val by simp

text \<open>
  Claim C1. The claim asks for \<open>Deaths[i] = Deaths[i-1] + IFR(i) * (R[i] - R[i-1])\<close> on
  every day. The loop computes this sum and then stores it in the int64 array, which
  drops the fraction, and the next day starts from the stored value. For the recovered
  series 0, 150, 300 with the ICU load under the capacity, the loop yields 0, 1, 2,
  where the recurrence of the claim gives 0, 1.5, 3.
\<close>

theorem deaths_loop_drops_fraction:
  "deaths 3 [0, 0, 0] [0, 150, 300] = Inr [0, 1, 2]
   \<and> map (Deaths_spec [0, 0, 0] [0, 150, 300]) [0, 1, 2] = [0, 3 / 2, 3]"
proof -
  have "deaths 3 [0, 0, 0] [0, 150, 300] = Inr [0, 1, 2]"
    by (simp add: upt_3 deaths_eval)
  moreover have "map (Deaths_spec [0, 0, 0] [0, 150, 300]) [0, 1, 2] = [0, 3 / 2, 3]"
    by (simp add: eval_nat_numeral IFR_of_def intensive_units_def infectionFatalityRateA_def)
  ultimately show ?thesis by simp
qed

text \<open>
  Claim C10. The deaths are kept in an array of integers. When \<^verbatim>\<open>U\<close> and \<^verbatim>\<open>R\<close> cover
  the grid and the truncated recurrence stays within the int64 range on every day, the
  loop ends normally, and on every day \<open>i\<close> the entry is the float
  \<^verbatim>\<open>DPrev + IFR * (R[i] - RPrev)\<close> with its fraction dropped, a whole number less than 1
  away from it. It is this whole number that the next day builds on (\<^verbatim>\<open>DPrev\<close> is the
  stored entry of the day before), so the entries follow the truncated recurrence and
  the loss adds up over the days.
\<close>

theorem deaths_truncated_integers:
  assumes "n \<le> length U" and "n \<le> length R"
    and "\<forall>i<n. in_int64 (Deaths_truncated U R i)"
  shows "\<exists>D. deaths n U R = Inr D \<and> length D = n
           \<and> (\<forall>i<n. D ! i = trunc (assigned U R D i)
                 \<and> \<bar>of_int (D ! i) - assigned U R D i\<bar> < 1
                 \<and> D ! i = Deaths_truncated U R i)"
proof -
  let ?D = "map (Deaths_truncated U R) [0..<n]"
  have "?D ! i = trunc (assigned U R ?D i) \<and> \<bar>of_int (?D ! i) - assigned U R ?D i\<bar> < 1
          \<and> ?D ! i = Deaths_truncated U R i"
    if "i < n" for i
  proof -
    have a: "Deaths_truncated U R i = trunc (assigned U R ?D i)"
      unfolding assigned_truncated [OF that] by (rule Deaths_truncated_step)
    with trunc_near [of "assigned U R ?D i"] that show ?thesis
      by simp
  qed
  moreover have "deaths n U R = Inr ?D"
    by (rule deaths_in_range [OF assms])
  moreover have "length ?D = n"
    by simp
  ultimately show ?thesis
    by blast
qed

text \<open>
  An instance: four days with 50 recovered more each day, the ICU load above the capacity
  on the last. Each of the first three days adds 0.5 and stores 0; the last adds 1.5 and
  stores 1. The recurrence over the reals reaches 3.
\<close>

lemma Deaths_truncated_ex:
  "map (Deaths_truncated [0, 0, 0, 6000] [50, 100, 150, 200]) [0, 1, 2, 3] = [0, 0, 0, 1]"
  by (simp add: eval_nat_numeral IFR_of_def intensive_units_def infectionFatalityRateA_def
      infectionFatalityRateB_def trunc_def)

theorem deaths_truncated_integers_witness:
  "(4::nat) \<le> length [0, 0, 0, 6000 :: real] \<and> (4::nat) \<le> length [50, 100, 150, 200 :: real]
   \<and> map (Deaths_truncated [0, 0, 0, 6000] [50, 100, 150, 200]) [0, 1, 2, 3] = [0, 0, 0, 1]
   \<and> in_int64 0 \<and> in_int64 1
   \<and> deaths 4 [0, 0, 0, 6000] [50, 100, 150, 200] = Inr [0, 0, 0, 1]
   \<and> Deaths_spec [0, 0, 0, 6000] [50, 100, 150, 200] 3 = 3
   \<and> (\<exists>D. deaths 4 [0, 0, 0, 6000] [50, 100, 150, 200] = Inr D \<and> length D = 4
        \<and> (\<forall>i<4. D ! i = trunc (assigned [0, 0, 0, 6000] [50, 100, 150, 200] D i)))"
proof -
  have ev: "deaths 4 [0, 0, 0, 6000] [50, 100, 150, 200] = Inr [0, 0, 0, 1]"
    by (simp add: upt_4 deaths_eval)
  have sp: "Deaths_spec [0, 0, 0, 6000] [50, 100, 150, 200] 3 = 3"
    by (simp add: eval_nat_numeral IFR_of_def intensive_units_def infectionFatalityRateA_def
        infectionFatalityRateB_def)
  have r: "in_int64 0" "in_int64 1"
    by (simp_all add: in_int64_def)
  have rng: "\<forall>i<4. in_int64 (Deaths_truncated [0, 0, 0, 6000] [50, 100, 150, 200] i)"
  proof (intro allI impI)
    fix i :: nat
    assume "i < 4"
    then have "i = 0 \<or> i = 1 \<or> i = 2 \<or> i = 3" by arith
    with Deaths_truncated_ex r show
      "in_int64 (Deaths_truncated [0, 0, 0, 6000] [50, 100, 150, 200] i)"
      by auto
  qed
  from deaths_truncated_integers [of 4 "[0, 0, 0, 6000]" "[50, 100, 150, 200]", OF _ _ rng]
  have "\<exists>D. deaths 4 [0, 0, 0, 6000] [50, 100, 150, 200] = Inr D \<and> length D = 4
        \<and> (\<forall>i<4. D ! i = trunc (assigned [0, 0, 0, 6000] [50, 100, 150, 200] D i))"
    by fastforce
  with ev sp r Deaths_truncated_ex show ?thesis
    by simp
qed

section \<open>Summary scalars\<close>

text \<open>
  Claim C9. The scalars printed at the end are \<open>sigma = 1 / (days_to_incubation -
  days_presymptomatic)\<close>, so that \<open>1 / sigma = 2.7\<close>;
  \<open>gamma = 1 / (2 * (generation_time - 1 / sigma))\<close> with \<open>generation_time = 4.6\<close>;
  \<open>beta0 = r0 * gamma\<close> and \<open>beta1 = r1 * gamma\<close>; and \<open>doublingTime = ln 2 / s1\<close> with
  \<open>s1 = 0.5 * (- (sigma + gamma) + sqrt ((sigma + gamma)\<^sup>2 + 4 sigma gamma (r0 - 1)))\<close>,
  which is positive.
\<close>

theorem summary_scalars:
  "sigma = 1 / (days_to_incubation - days_presymptomatic) \<and> 1 / sigma = 2.7
   \<and> generation_time = 4.6 \<and> gamma = 1 / (2 * (generation_time - 1 / sigma))
   \<and> beta0 = r0 * gamma \<and> beta1 = r1 * gamma
   \<and> s1 = 0.5 * (- (sigma + gamma) + sqrt ((sigma + gamma)\<^sup>2 + 4 * sigma * gamma * (r0 - 1)))
   \<and> 0 < s1 \<and> doublingTime = ln 2 / s1
   \<and> sigma = 10 / 27 \<and> gamma = 5 / 19 \<and> beta0 = 15 / 19 \<and> beta1 = 5 / 19"
proof -
  have "log (exp 1) 2 = ln 2"
    by (simp add: log_def)
  then have "doublingTime = ln 2 / s1"
    by (simp add: doublingTime_def)
  moreover have "1 / sigma = 2.7"
    by (simp add: sigma_val)
  moreover have "sigma = 1 / (days_to_incubation - days_presymptomatic)"
    by (simp add: sigma_def)
  moreover have "gamma = 1 / (2 * (generation_time - 1 / sigma))"
    by (simp add: gamma_def)
  moreover have
    "s1 = 0.5 * (- (sigma + gamma) + sqrt ((sigma + gamma)\<^sup>2 + 4 * sigma * gamma * (r0 - 1)))"
    by (simp add: s1_def)
  moreover have "beta0 = 15 / 19" and "beta1 = 5 / 19"
    by (simp_all add: beta0_def beta1_def gamma_val r0_def r1_def)
  ultimately show ?thesis
    using s1_pos sigma_val gamma_val by (simp add: generation_time_def beta0_def beta1_def)
qed

end
